theory Spec2Isabelle
  imports Main "HOL-Library.AList"
begin

section \<open>analyze-schema-compression.py: a shallow embedding\<close>

text \<open>
  The script is Python 2 (it uses the \<^verbatim>\<open>print\<close> statement and \<^verbatim>\<open>e.message\<close>).
  Integers are \<open>int\<close>, strings are \<open>string\<close>, the module's globals are the fields
  of a configuration record, and everything the script does to the outside world
  (the database session, the text sink, \<^verbatim>\<open>time.sleep\<close>) is appended to a trace of
  events. The database is an oracle: a function giving the outcome of each call.
\<close>

subsection \<open>Status codes and constants (lines 49-57)\<close>

definition OK :: int where "OK = 0"
definition ERROR :: int where "ERROR = 1"
definition INVALID_ARGS :: int where "INVALID_ARGS = 2"
definition NO_WORK :: int where "NO_WORK = 3"
definition TERMINATED_BY_USER :: int where "TERMINATED_BY_USER = 4"
definition NO_CONNECTION :: int where "NO_CONNECTION = 5"

text \<open>
  \<^verbatim>\<open>RETRY_TIMEOUT = 100/1000\<close>: both operands are Python 2 integers, so \<^verbatim>\<open>/\<close> is
  floor division.
\<close>

definition RETRY_TIMEOUT :: int where "RETRY_TIMEOUT = 100 div 1000"

subsection \<open>Values, exceptions, events\<close>

text \<open>
  A catalog attribute whose Python type the script itself is unsure of (it tests
  \<^verbatim>\<open>distkey\<close> both as a boolean and as a string, and \<^verbatim>\<open>notnull\<close> against a string).
\<close>

datatype pyval = PyNone | PyBool bool | PyStr string

text \<open>Python's \<^verbatim>\<open>str(v)\<close> and the truth value of \<^verbatim>\<open>v\<close> in a condition.\<close>

fun py_str :: "pyval \<Rightarrow> string" where
  "py_str PyNone = ''None''"
| "py_str (PyBool b) = (if b then ''True'' else ''False'')"
| "py_str (PyStr s) = s"

fun py_truth :: "pyval \<Rightarrow> bool" where
  "py_truth PyNone = False"
| "py_truth (PyBool b) = b"
| "py_truth (PyStr s) = (s \<noteq> [])"

text \<open>\<^verbatim>\<open>v == 'literal'\<close>: a string equals only an equal string.\<close>

fun py_eq_str :: "pyval \<Rightarrow> string \<Rightarrow> bool" where
  "py_eq_str (PyStr s) t = (s = t)"
| "py_eq_str _ t = False"

text \<open>The exceptions that the modelled code can raise or receive.\<close>

datatype exn =
    DbError string          \<comment> \<open>raised by the database driver, with its message\<close>
  | AttributeError string   \<comment> \<open>a method of \<^verbatim>\<open>None\<close>\<close>
  | TypeError string
  | KeyError int            \<comment> \<open>a missing dictionary key\<close>

datatype event =
    Execute string          \<comment> \<open>\<^verbatim>\<open>cursor.execute(statement)\<close>\<close>
  | Rollback                \<comment> \<open>\<^verbatim>\<open>conn.rollback()\<close>\<close>
  | Sleep int               \<comment> \<open>\<^verbatim>\<open>time.sleep(seconds)\<close>\<close>
  | CursorClose             \<comment> \<open>\<^verbatim>\<open>cursor.close()\<close>\<close>
  | Cleanup                 \<comment> \<open>\<^verbatim>\<open>cleanup()\<close>\<close>
  | Write string            \<comment> \<open>\<^verbatim>\<open>write(s)\<close>: console and output file\<close>
  | Print string            \<comment> \<open>the \<^verbatim>\<open>print\<close> statement: console only\<close>

subsection \<open>Decimal rendering and string helpers\<close>

definition digit_char :: "nat \<Rightarrow> char" where
  "digit_char d = char_of (48 + d)"

fun str_nat :: "nat \<Rightarrow> string" where
  "str_nat n = (if n < 10 then [digit_char n] else str_nat (n div 10) @ [digit_char (n mod 10)])"

definition str_int :: "int \<Rightarrow> string" where
  "str_int i = (if i < 0 then CHR ''-'' # str_nat (nat (- i)) else str_nat (nat i))"

text \<open>\<^verbatim>\<open>s.replace(old, new)\<close>: every non-overlapping occurrence, left to right.\<close>

function replace :: "string \<Rightarrow> string \<Rightarrow> string \<Rightarrow> string" where
  "replace old new [] = (if old = [] then new else [])"
| "replace old new (c # cs) =
     (if old = [] then new @ c # replace old new cs
      else if take (length old) (c # cs) = old
        then new @ replace old new (drop (length old) (c # cs))
      else c # replace old new cs)"
  by pat_completeness auto
termination
  by (relation "measure (\<lambda>(old, new, s). length s)") auto

text \<open>\<^verbatim>\<open>s.upper()\<close> on ASCII letters.\<close>

definition upper_char :: "char \<Rightarrow> char" where
  "upper_char c =
     (let n = (of_char c :: nat) in if 97 \<le> n \<and> n \<le> 122 then char_of (n - 32) else c)"

definition upper :: "string \<Rightarrow> string" where
  "upper s = map upper_char s"


subsection \<open>Configuration: the module's globals (lines 59-77)\<close>

text \<open>
  \<open>target_schema\<close> is a string here: \<^verbatim>\<open>main\<close> replaces \<^verbatim>\<open>None\<close> by
  \<open>analyze_schema\<close> (lines 517-518) before any worker runs. \<open>pid\<close> stands for
  \<^verbatim>\<open>str(os.getpid())\<close>. \<open>output_file_handle\<close> tells whether the output file is open.
\<close>

record config =
  analyze_schema :: string
  target_schema :: string
  debug :: bool
  do_execute :: bool
  ignore_errors :: bool
  force :: bool
  drop_old_data :: bool
  comprows :: "int option"
  pid :: string
  output_file_handle :: bool

subsection \<open>The text sink: comment, write, print_statements (lines 91-108)\<close>

text \<open>
  \<^verbatim>\<open>re.match('.*\n.*', string)\<close> succeeds exactly when the string holds a newline.
\<close>

definition comment :: "config \<Rightarrow> string \<Rightarrow> event list" where
  "comment cfg s =
     (if CHR 0x0A \<in> set s
      then [Write (''/* ['' @ pid cfg @ '']'' @ [CHR 0x0A] @ s @ [CHR 0x0A] @ ''*/'' @ [CHR 0x0A])]
      else [Write (''-- ['' @ pid cfg @ ''] '' @ s)])"

definition print_statements :: "string list \<Rightarrow> event list" where
  "print_statements statements = map Write statements"

subsection \<open>Catalog Reader (lines 175-198)\<close>

text \<open>
  One row of \<^verbatim>\<open>pg_table_def\<close> as selected by \<^verbatim>\<open>get_table_desc\<close>:
  \<^verbatim>\<open>"column", type, encoding, distkey, sortkey, "notnull"\<close> (indices 0 to 5).
\<close>

record desc_row =
  d_column :: string
  d_type :: string
  d_encoding :: string
  d_distkey :: pyval
  d_sortkey :: int
  d_notnull :: pyval

text \<open>
  \<^verbatim>\<open>get_table_attribute(description_list, column_name, index)\<close>: the attribute of the
  first row whose column name matches; the index is the field selector. Falling off the
  loop returns Python's \<^verbatim>\<open>None\<close>, here \<open>None\<close>.
\<close>

fun get_table_attribute :: "desc_row list \<Rightarrow> string \<Rightarrow> (desc_row \<Rightarrow> 'a) \<Rightarrow> 'a option" where
  "get_table_attribute [] column_name index = None"
| "get_table_attribute (item # description_list) column_name index =
     (if d_column item = column_name then Some (index item)
      else get_table_attribute description_list column_name index)"

definition opt_pyval :: "pyval option \<Rightarrow> pyval" where
  "opt_pyval v = (case v of None \<Rightarrow> PyNone | Some x \<Rightarrow> x)"

subsection \<open>Migration Executor: run_commands (lines 200-218)\<close>

text \<open>
  The session answers each \<^verbatim>\<open>cur.execute(c)\<close> with a status message or raises. The
  oracle \<open>db\<close> gives the answer to a command from the commands already run on the
  cursor and the command itself.
\<close>

datatype reply = Status string | Raises exn

fun exn_message :: "exn \<Rightarrow> string" where
  "exn_message (DbError m) = m"
| "exn_message (AttributeError m) = m"
| "exn_message (TypeError m) = m"
| "exn_message (KeyError k) = str_int k"

fun run_commands_loop ::
  "config \<Rightarrow> (string list \<Rightarrow> string \<Rightarrow> reply) \<Rightarrow> string list \<Rightarrow> string list \<Rightarrow> bool \<times> event list" where
  "run_commands_loop cfg db prev [] = (True, [CursorClose])"
| "run_commands_loop cfg db prev (c # commands) =
     (let running = comment cfg (''['' @ pid cfg @ ''] Running '' @ c @ '': '' @ [CHR 0x0A]) in
      case db prev c of
        Status statusmessage \<Rightarrow>
          (let (r, t) = run_commands_loop cfg db (prev @ [c]) commands
           in (r, running @ [Execute c] @ comment cfg statusmessage @ t))
      | Raises e \<Rightarrow>
          (False, running @ [Execute c, Rollback, Write (exn_message e)]))"

definition run_commands :: "config \<Rightarrow> (string list \<Rightarrow> string \<Rightarrow> reply) \<Rightarrow> string list \<Rightarrow> bool \<times> event list" where
  "run_commands cfg db commands = run_commands_loop cfg db [] commands"

subsection \<open>Compression Analyzer: the retry loop of analyze (lines 238-262)\<close>

text \<open>
  One row of the answer to \<^verbatim>\<open>analyze compression\<close>: table, column, encoding and the
  estimated reduction (indices 0 to 3; the script reads 1 and 2).
\<close>

record analyze_row =
  r_table :: string
  r_column :: string
  r_encoding :: string
  r_est_reduction :: string

text \<open>What one attempt (\<^verbatim>\<open>execute\<close> then \<^verbatim>\<open>fetchall\<close>) does.\<close>

datatype attempt =
    Fetched "analyze_row list"
  | Raised exn
  | KeyboardInterrupt

definition analyze_retry :: nat where "analyze_retry = 10"

text \<open>
  The loop variables (\<open>output_rows\<close> is the script's \<^verbatim>\<open>output\<close>), the trace of the loop's effects, and \<open>exited\<close>: the status of
  \<^verbatim>\<open>sys.exit\<close> when the loop was left through it.
\<close>

record retry_state =
  output_rows :: "analyze_row list option"
  attempt_count :: nat
  last_exception :: "exn option"
  trace :: "event list"
  exited :: "int option"

definition retry_init :: retry_state where
  "retry_init = \<lparr>output_rows = None, attempt_count = 0, last_exception = None, trace = [], exited = None\<rparr>"

text \<open>
  The attempts are numbered from 0 in the order the loop makes them; \<open>db k\<close> is what
  attempt \<open>k\<close> does. In the handler of \<^verbatim>\<open>Exception\<close>, line 255 is the expression
  \<^verbatim>\<open>local_conn.rollback\<close>: it names the method and does not call it, so no event.
\<close>

function retry_loop :: "(nat \<Rightarrow> attempt) \<Rightarrow> string \<Rightarrow> nat \<Rightarrow> retry_state \<Rightarrow> retry_state" where
  "retry_loop db statement k s =
     (if attempt_count s < analyze_retry \<and> output_rows s = None then
        (case db k of
           Fetched rows \<Rightarrow>
             retry_loop db statement (Suc k)
               (s\<lparr>output_rows := Some rows, trace := trace s @ [Execute statement, CursorClose]\<rparr>)
         | KeyboardInterrupt \<Rightarrow>
             s\<lparr>trace := trace s @ [Execute statement, CursorClose, Cleanup],
               exited := Some TERMINATED_BY_USER\<rparr>
         | Raised e \<Rightarrow>
             retry_loop db statement (Suc k)
               (s\<lparr>attempt_count := attempt_count s + 1,
                  last_exception := Some e,
                  trace := trace s @
                    [Execute statement, Sleep (2 ^ (attempt_count s + 1) * RETRY_TIMEOUT)]\<rparr>))
      else s)"
  by pat_completeness auto
termination
  by (relation "measure (\<lambda>(db, statement, k, s).
        (analyze_retry - attempt_count s) + (if output_rows s = None then 1 else 0))")
     (auto simp: analyze_retry_def)

declare retry_loop.simps [simp del]

subsection \<open>Script Synthesizer: the column loop of analyze (lines 273-321)\<close>

definition nl :: string where "nl = [CHR 0x0A]"
definition sq :: string where "sq = [CHR 0x27]"
definition dq :: string where "dq = [CHR 0x22]"

text \<open>
  The variables the loop over the analyzer's rows updates. \<open>sortkeys\<close> is the
  dictionary from \<^verbatim>\<open>abs(sortkey)\<close> to the column name, as an association list with one
  entry per key: \<open>AList.update\<close> overwrites the value of a key already present, as the
  assignment \<^verbatim>\<open>sortkeys[k] = col\<close> does, and \<open>length\<close> is \<^verbatim>\<open>len(sortkeys)\<close>.
\<close>

record column_acc =
  found_non_raw :: bool
  encode_columns :: "string list"
  sortkeys :: "(int \<times> string) list"
  has_zindex_sortkeys :: bool

definition column_acc_init :: column_acc where
  "column_acc_init =
     \<lparr>found_non_raw = False, encode_columns = [], sortkeys = [], has_zindex_sortkeys = False\<rparr>"

text \<open>Line 321: \<^verbatim>\<open>'%s %s %s encode %s %s' % (col, col_type, col_null, compression, distkey)\<close>.\<close>

definition column_definition :: "string \<Rightarrow> string \<Rightarrow> string \<Rightarrow> string \<Rightarrow> string \<Rightarrow> string" where
  "column_definition col col_type col_null compression distkey =
     col @ '' '' @ col_type @ '' '' @ col_null @ '' encode '' @ compression @ '' '' @ distkey"

text \<open>Lines 287-289, 291-296, 307-311 and 313-318, one function per computed clause.\<close>

definition fix_datatype :: "string \<Rightarrow> string" where
  "fix_datatype col_type =
     replace ''without time zone'' [] (replace ''character varying'' ''varchar'' col_type)"

definition distkey_clause :: "pyval \<Rightarrow> string" where
  "distkey_clause distkey =
     (if py_truth distkey \<or> upper (py_str distkey) = ''TRUE'' then ''DISTKEY'' else [])"

definition compression_of :: "int \<Rightarrow> string \<Rightarrow> string" where
  "compression_of sortkey recommended = (if \<bar>sortkey\<bar> = 1 then ''RAW'' else recommended)"

definition null_clause :: "pyval \<Rightarrow> string" where
  "null_clause col_null = (if py_eq_str col_null ''true'' then ''NOT NULL'' else [])"

text \<open>
  The body of the loop for one row. A column the catalog does not describe gives
  \<^verbatim>\<open>None\<close> for its type, and \<^verbatim>\<open>None.replace\<close> raises.
\<close>

definition process_row :: "desc_row list \<Rightarrow> column_acc \<Rightarrow> analyze_row \<Rightarrow> exn + column_acc" where
  "process_row descr a row =
     (let col = r_column row;
          found = (if r_encoding row \<noteq> ''raw'' then True else found_non_raw a)
      in case get_table_attribute descr col d_type of
           None \<Rightarrow> Inl (AttributeError (sq @ ''NoneType'' @ sq @ '' object has no attribute '' @ sq @ ''replace'' @ sq))
         | Some col_type \<Rightarrow>
             (let distkey = distkey_clause (opt_pyval (get_table_attribute descr col d_distkey))
              in case get_table_attribute descr col d_sortkey of
                   None \<Rightarrow> Inl (TypeError (''bad operand type for abs(): '' @ sq @ ''NoneType'' @ sq))
                 | Some sortkey \<Rightarrow>
                     (let keys = (if sortkey \<noteq> 0 then AList.update \<bar>sortkey\<bar> col (sortkeys a)
                                  else sortkeys a);
                          zindex = (if sortkey \<noteq> 0 \<and> sortkey < 0 then True
                                    else has_zindex_sortkeys a);
                          compression = compression_of sortkey (r_encoding row);
                          col_null = null_clause (opt_pyval (get_table_attribute descr col d_notnull))
                      in Inr \<lparr>found_non_raw = found,
                              encode_columns = encode_columns a @
                                [column_definition col (fix_datatype col_type) col_null compression distkey],
                              sortkeys = keys,
                              has_zindex_sortkeys = zindex\<rparr>)))"

fun column_loop :: "desc_row list \<Rightarrow> analyze_row list \<Rightarrow> column_acc \<Rightarrow> exn + column_acc" where
  "column_loop descr [] a = Inr a"
| "column_loop descr (row # rows) a =
     (case process_row descr a row of
        Inl e \<Rightarrow> Inl e
      | Inr a' \<Rightarrow> column_loop descr rows a')"

subsection \<open>Script Synthesizer: the statements (lines 264-269 and 323-369)\<close>

text \<open>Lines 325-326: the column definitions, the leading comma left off the first.\<close>

fun columns_text :: "nat \<Rightarrow> string list \<Rightarrow> string" where
  "columns_text i [] = []"
| "columns_text i (s # ss) = nl @ (if i = 0 then [] else '','') @ s @ columns_text (Suc i) ss"

text \<open>
  Lines 332-340: the loop over \<^verbatim>\<open>range(1, len(sortkeys)+1)\<close>; \<^verbatim>\<open>sortkeys[i]\<close> raises
  \<^verbatim>\<open>KeyError\<close> for an ordinal that is not a key.
\<close>

fun sortkey_loop :: "(int \<times> string) list \<Rightarrow> int list \<Rightarrow> string \<Rightarrow> exn + string" where
  "sortkey_loop keys [] sortkey = Inr sortkey"
| "sortkey_loop keys (i # is) sortkey =
     (case map_of keys i of
        None \<Rightarrow> Inl (KeyError i)
      | Some c \<Rightarrow>
          sortkey_loop keys is
            (sortkey @ c @ (if i \<noteq> int (length keys) then '','' else '')'' @ nl)))"

definition sortkey_header :: "bool \<Rightarrow> string" where
  "sortkey_header zindex = nl @ (if zindex then ''INTERLEAVED '' else []) @ ''SORTKEY(''"

definition sortkey_clause :: "(int \<times> string) list \<Rightarrow> bool \<Rightarrow> exn + string" where
  "sortkey_clause keys zindex =
     sortkey_loop keys [1..int (length keys)] (sortkey_header zindex)"

definition target_table_of :: "config \<Rightarrow> string \<Rightarrow> string" where
  "target_table_of cfg table_name =
     (if target_schema cfg = analyze_schema cfg then table_name @ ''_$mig'' else table_name)"

definition create_table_head :: "config \<Rightarrow> string \<Rightarrow> string" where
  "create_table_head cfg table_name =
     ''-- creating migration table for '' @ table_name @ nl @ ''begin;'' @ nl @ nl @
     ''create table '' @ target_schema cfg @ ''.'' @ target_table_of cfg table_name @ ''(''"

definition create_table_stmt :: "config \<Rightarrow> string \<Rightarrow> column_acc \<Rightarrow> exn + string" where
  "create_table_stmt cfg table_name a =
     (let create_table = create_table_head cfg table_name @ columns_text 0 (encode_columns a) @ nl @ '')''
      in if length (sortkeys a) > 0 then
           (case sortkey_clause (sortkeys a) (has_zindex_sortkeys a) of
              Inl e \<Rightarrow> Inl e
            | Inr sortkey \<Rightarrow> Inr (create_table @ '' '' @ sortkey @ '' '' @ '';'' @ nl))
         else Inr (create_table @ '';'' @ nl))"

definition insert_stmt :: "config \<Rightarrow> string \<Rightarrow> string" where
  "insert_stmt cfg table_name =
     ''-- migrating data to new structure'' @ nl @ ''insert into '' @ target_schema cfg @ ''.'' @
     target_table_of cfg table_name @ '' select * from '' @ analyze_schema cfg @ ''.'' @ table_name @
     '';'' @ nl"

definition analyze_stmt :: "config \<Rightarrow> string \<Rightarrow> string" where
  "analyze_stmt cfg table_name =
     ''analyze '' @ target_schema cfg @ ''.'' @ target_table_of cfg table_name @ '';'' @ nl"

definition drop_stmt :: "config \<Rightarrow> string \<Rightarrow> string" where
  "drop_stmt cfg table_name =
     (if drop_old_data cfg
      then ''drop table '' @ target_schema cfg @ ''.'' @ table_name @ '';'' @ nl
      else ''alter table '' @ target_schema cfg @ ''.'' @ table_name @ '' rename to '' @
           table_name @ ''_$old'' @ '';'' @ nl)"

definition rename_stmt :: "config \<Rightarrow> string \<Rightarrow> string" where
  "rename_stmt cfg table_name =
     ''alter table '' @ target_schema cfg @ ''.'' @ target_table_of cfg table_name @
     '' rename to '' @ table_name @ '';'' @ nl"

definition commit_stmt :: string where
  "commit_stmt = ''commit;'' @ nl"

text \<open>
  Lines 323-369: the statement list. The plan is built only under
  \<^verbatim>\<open>found_non_raw or force\<close>; otherwise \<^verbatim>\<open>statements\<close> stays empty.
\<close>

definition build_statements :: "config \<Rightarrow> string \<Rightarrow> column_acc \<Rightarrow> exn + string list" where
  "build_statements cfg table_name a =
     (if found_non_raw a \<or> force cfg then
        (case create_table_stmt cfg table_name a of
           Inl e \<Rightarrow> Inl e
         | Inr create_table \<Rightarrow>
             Inr ([create_table, insert_stmt cfg table_name, analyze_stmt cfg table_name] @
                  (if target_schema cfg = analyze_schema cfg
                   then [drop_stmt cfg table_name, rename_stmt cfg table_name] else []) @
                  [commit_stmt]))
      else Inr [])"

text \<open>
  The synthesizer: from the catalog description and the analyzer's rows to the
  statement list (empty when the table is skipped).
\<close>

definition synthesize :: "config \<Rightarrow> string \<Rightarrow> desc_row list \<Rightarrow> analyze_row list \<Rightarrow> exn + string list" where
  "synthesize cfg table_name descr rows =
     (case column_loop descr rows column_acc_init of
        Inl e \<Rightarrow> Inl e
      | Inr a \<Rightarrow> build_statements cfg table_name a)"

subsection \<open>The worker: analyze (lines 220-385)\<close>

text \<open>
  What the session does during one call of \<^verbatim>\<open>analyze\<close>: the outcome of each attempt of
  \<^verbatim>\<open>analyze compression\<close>, the answer to the catalog query of \<^verbatim>\<open>get_table_desc\<close>, and
  the answers to the statements \<^verbatim>\<open>run_commands\<close> executes. The connection itself is
  taken as established (\<^verbatim>\<open>get_conn\<close> is not modelled).
\<close>

record env =
  attempts :: "nat \<Rightarrow> attempt"
  table_desc :: "exn + desc_row list"
  replies :: "string list \<Rightarrow> string \<Rightarrow> reply"

text \<open>How a call of the worker ends.\<close>

datatype worker_result =
    Returned int        \<comment> \<open>\<^verbatim>\<open>return status\<close>\<close>
  | Propagated exn      \<comment> \<open>an exception leaves the function\<close>
  | SysExited int       \<comment> \<open>\<^verbatim>\<open>sys.exit(status)\<close>\<close>

definition desc_statement :: "config \<Rightarrow> string \<Rightarrow> string" where
  "desc_statement cfg table_name =
     ''select '' @ dq @ ''column'' @ dq @ '', type, encoding, distkey, sortkey, '' @ dq @ ''notnull'' @ dq @ nl @
     '' from pg_table_def'' @ nl @
     '' where schemaname = '' @ sq @ analyze_schema cfg @ sq @ nl @
     '' and tablename = '' @ sq @ table_name @ sq @ nl"

definition get_table_desc :: "config \<Rightarrow> env \<Rightarrow> string \<Rightarrow> (exn + desc_row list) \<times> event list" where
  "get_table_desc cfg e table_name =
     (let statement = desc_statement cfg table_name;
          dbg = (if debug cfg then comment cfg statement else [])
      in case table_desc e of
           Inl x \<Rightarrow> (Inl x, dbg @ [Execute statement])
         | Inr description \<Rightarrow> (Inr description, dbg @ [Execute statement, CursorClose]))"

text \<open>
  Lines 376-379, the handler of the outer \<^verbatim>\<open>try\<close>. \<^verbatim>\<open>write(e)\<close> prints the exception
  and then hands the exception object to the file's \<^verbatim>\<open>write\<close>, which accepts strings
  only: with the output file open the handler itself raises.
\<close>

definition handle_exception :: "config \<Rightarrow> string \<Rightarrow> exn \<Rightarrow> worker_result \<times> event list" where
  "handle_exception cfg table_name e =
     (let t = [Write (''Exception '' @ exn_message e @ '' during analysis of '' @ table_name),
               Print (exn_message e)]
      in if output_file_handle cfg
         then (Propagated (TypeError ''expected a character buffer object''), t)
         else (Returned ERROR, t))"

definition analyze_statement :: "config \<Rightarrow> string \<Rightarrow> string" where
  "analyze_statement cfg table_name =
     ''analyze compression '' @ table_name @
     (case comprows cfg of None \<Rightarrow> [] | Some n \<Rightarrow> '' comprows '' @ str_int n)"

definition analyze :: "config \<Rightarrow> env \<Rightarrow> string \<times> int \<times> int \<Rightarrow> worker_result \<times> event list" where
  "analyze cfg e tables =
     (let table_name = fst tables;
          statement = analyze_statement cfg table_name;
          t0 = (if debug cfg then comment cfg statement else []) @
               [Write (''-- Analysing Table '' @ sq @ table_name @ sq @ nl)];
          s = retry_loop (attempts e) statement 0 retry_init;
          t1 = t0 @ trace s
      in case exited s of
           Some status \<Rightarrow> (SysExited status, t1)
         | None \<Rightarrow>
            (case output_rows s of
               None \<Rightarrow>
                 (case last_exception s of
                    None \<Rightarrow>
                      (let (r, t) = handle_exception cfg table_name
                          (AttributeError (sq @ ''NoneType'' @ sq @ '' object has no attribute '' @ sq @ ''message'' @ sq))
                       in (r, t1 @ t))
                  | Some x \<Rightarrow>
                      (Returned ERROR,
                       t1 @ [Print (''Unable to Analyze '' @ table_name @ '' due to Exception '' @ exn_message x)]))
             | Some rows \<Rightarrow>
                 (let (d, td) = get_table_desc cfg e table_name; t2 = t1 @ td
                  in case d of
                       Inl x \<Rightarrow> (let (r, t) = handle_exception cfg table_name x in (r, t2 @ t))
                     | Inr descr \<Rightarrow>
                        (case column_loop descr rows column_acc_init of
                           Inl x \<Rightarrow> (let (r, t) = handle_exception cfg table_name x in (r, t2 @ t))
                         | Inr a \<Rightarrow>
                            (case build_statements cfg table_name a of
                               Inl x \<Rightarrow> (let (r, t) = handle_exception cfg table_name x in (r, t2 @ t))
                             | Inr statements \<Rightarrow>
                                 (if (found_non_raw a \<or> force cfg) \<and> do_execute cfg then
                                    (let (ok, tr) = run_commands cfg (replies e) statements
                                     in if \<not> ok \<and> \<not> ignore_errors cfg
                                        then (Returned ERROR, t2 @ tr)
                                        else (Returned OK,
                                              t2 @ tr @ [CursorClose] @ print_statements statements))
                                  else (Returned OK,
                                        t2 @ [CursorClose] @ print_statements statements)))))))"

subsection \<open>The end of main (lines 591-627)\<close>

text \<open>
  The objects the last lines of \<^verbatim>\<open>main\<close> compare and pass to \<^verbatim>\<open>sys.exit\<close>: integers
  and lists. On these, Python's \<^verbatim>\<open>!=\<close> is structural inequality, and an integer never
  equals a list.
\<close>

datatype pyobj = PInt int | PList "pyobj list"

text \<open>
  \<^verbatim>\<open>sys.exit(arg)\<close>: an integer is the exit status; any other object is printed and the
  exit status is 1.
\<close>

fun sys_exit :: "pyobj \<Rightarrow> int" where
  "sys_exit (PInt n) = n"
| "sys_exit (PList xs) = 1"

text \<open>How \<^verbatim>\<open>p.map(analyze, analyze_tables)\<close> ends.\<close>

datatype map_outcome =
    MapResult "int list"      \<comment> \<open>the statuses the workers returned, one per table\<close>
  | MapKeyboardInterrupt
  | MapException

text \<open>Lines 623-627: the loop over \<^verbatim>\<open>worker_output\<close> and the final \<^verbatim>\<open>sys.exit(OK)\<close>.\<close>

fun exit_loop :: "pyobj list \<Rightarrow> int" where
  "exit_loop [] = sys_exit (PInt OK)"
| "exit_loop (ret # worker_output) =
     (if ret \<noteq> PInt OK then sys_exit ret else exit_loop worker_output)"

text \<open>
  Lines 593-627. \<^verbatim>\<open>analyze_tables\<close> is the list \<^verbatim>\<open>fetchall\<close> returned, never \<^verbatim>\<open>None\<close>.
  Line 599 appends \<^verbatim>\<open>[result]\<close>, a list holding the list of statuses. The function
  gives the exit status of the process and the trace.
\<close>

definition main_finish :: "config \<Rightarrow> map_outcome \<Rightarrow> int \<times> event list" where
  "main_finish cfg m =
     (case m of
        MapKeyboardInterrupt \<Rightarrow> (sys_exit (PInt TERMINATED_BY_USER), [Cleanup])
      | MapException \<Rightarrow> (sys_exit (PInt ERROR), [Cleanup])
      | MapResult result \<Rightarrow>
          (let worker_output = [] @ [PList [PList (map PInt result)]];
               t = (if drop_old_data cfg then [Write (''vacuum delete only;'' @ nl)] else []) @
                   comment cfg ''Processing Complete'' @ [Cleanup]
           in (exit_loop worker_output, t)))"

subsection \<open>Observations on traces and inputs\<close>

text \<open>The statements a trace executes, in order, and the durations it sleeps.\<close>

fun executed :: "event list \<Rightarrow> string list" where
  "executed [] = []"
| "executed (Execute c # t) = c # executed t"
| "executed (x # t) = executed t"

fun sleeps :: "event list \<Rightarrow> int list" where
  "sleeps [] = []"
| "sleeps (Sleep d # t) = d # sleeps t"
| "sleeps (x # t) = sleeps t"


text \<open>
  The sort-key position the catalog gives the column of an analyzer row, as line 299 reads
  it: 0 for a column that is no sort key (and here also for a column the catalog does not
  describe, for which the loop has already failed).
\<close>

definition sortkey_of :: "desc_row list \<Rightarrow> analyze_row \<Rightarrow> int" where
  "sortkey_of descr row =
     (case get_table_attribute descr (r_column row) d_sortkey of None \<Rightarrow> 0 | Some k \<Rightarrow> k)"

subsection \<open>Example inputs\<close>

definition example_cfg :: config where
  "example_cfg =
     \<lparr>analyze_schema = ''public'', target_schema = ''public'', debug = False, do_execute = False,
      ignore_errors = False, force = False, drop_old_data = False, comprows = None,
      pid = ''77'', output_file_handle = True\<rparr>"

text \<open>A session that refuses the second statement it is given, and one that accepts all.\<close>

definition failing_session :: "string list \<Rightarrow> string \<Rightarrow> reply" where
  "failing_session prev c =
     (if length prev = 1 then Raises (DbError ''permission denied'') else Status ''OK'')"

definition accepting_session :: "string list \<Rightarrow> string \<Rightarrow> reply" where
  "accepting_session prev c = Status ''OK''"

definition archive_cfg :: config where
  "archive_cfg = example_cfg\<lparr>target_schema := ''archive''\<rparr>"

text \<open>
  A table \<^verbatim>\<open>events\<close> with an interleaved sort key on \<^verbatim>\<open>ts\<close> (first) and \<^verbatim>\<open>id\<close> (second),
  the analyzer's recommendations for it, and what the synthesizer makes of them.
\<close>

definition events_descr :: "desc_row list" where
  "events_descr =
     [\<lparr>d_column = ''id'', d_type = ''integer'', d_encoding = ''none'',
       d_distkey = PyBool True, d_sortkey = - 2, d_notnull = PyBool True\<rparr>,
      \<lparr>d_column = ''ts'', d_type = ''timestamp without time zone'', d_encoding = ''none'',
       d_distkey = PyBool False, d_sortkey = 1, d_notnull = PyBool False\<rparr>,
      \<lparr>d_column = ''payload'', d_type = ''character varying(256)'', d_encoding = ''none'',
       d_distkey = PyBool False, d_sortkey = 0, d_notnull = PyStr ''true''\<rparr>]"

definition events_rows :: "analyze_row list" where
  "events_rows =
     [\<lparr>r_table = ''events'', r_column = ''id'', r_encoding = ''lzo'', r_est_reduction = ''0.00''\<rparr>,
      \<lparr>r_table = ''events'', r_column = ''ts'', r_encoding = ''delta'', r_est_reduction = ''0.00''\<rparr>,
      \<lparr>r_table = ''events'', r_column = ''payload'', r_encoding = ''lzo'', r_est_reduction = ''0.00''\<rparr>]"

definition events_acc :: column_acc where
  "events_acc =
     \<lparr>found_non_raw = True,
      encode_columns =
        [''id integer  encode lzo DISTKEY'', ''ts timestamp   encode RAW '',
         ''payload varchar(256) NOT NULL encode lzo ''],
      sortkeys = [(2, ''id''), (1, ''ts'')],
      has_zindex_sortkeys = True\<rparr>"


definition events_create :: string where
  "events_create =
     ''-- creating migration table for events\<newline>begin;\<newline>\<newline>create table public.events_$mig(\<newline>id integer  encode lzo DISTKEY\<newline>,ts timestamp   encode RAW \<newline>,payload varchar(256) NOT NULL encode lzo \<newline>) \<newline>INTERLEAVED SORTKEY(ts,id)\<newline> ;\<newline>''"

definition events_rest :: "string list" where
  "events_rest =
     [''-- migrating data to new structure\<newline>insert into public.events_$mig select * from public.events;\<newline>'',
      ''analyze public.events_$mig;\<newline>'',
      ''alter table public.events rename to events_$old;\<newline>'',
      ''alter table public.events_$mig rename to events;\<newline>'',
      ''commit;\<newline>'']"

definition archive_plan :: "string list" where
  "archive_plan =
     [''-- creating migration table for events\<newline>begin;\<newline>\<newline>create table archive.events(\<newline>id integer  encode lzo DISTKEY\<newline>,ts timestamp   encode RAW \<newline>,payload varchar(256) NOT NULL encode lzo \<newline>) \<newline>INTERLEAVED SORTKEY(ts,id)\<newline> ;\<newline>'',
      ''-- migrating data to new structure\<newline>insert into archive.events select * from public.events;\<newline>'',
      ''analyze archive.events;\<newline>'',
      ''commit;\<newline>'']"









section \<open>Evaluating the examples\<close>

lemmas model_defs =
  synthesize_def build_statements_def create_table_stmt_def create_table_head_def
  target_table_of_def insert_stmt_def analyze_stmt_def drop_stmt_def rename_stmt_def commit_stmt_def
  sortkey_clause_def sortkey_header_def process_row_def column_acc_init_def column_definition_def
  fix_datatype_def distkey_clause_def compression_of_def null_clause_def opt_pyval_def
  upper_def upper_char_def nl_def sq_def dq_def sortkey_of_def

lemma events_loop: "column_loop events_descr events_rows column_acc_init = Inr events_acc"
  by (simp add: events_descr_def events_rows_def events_acc_def model_defs Let_def)


lemma events_plan:
  "synthesize example_cfg ''events'' events_descr events_rows = Inr (events_create # events_rest)"
  by (simp add: synthesize_def events_loop)
     (simp add: events_acc_def example_cfg_def events_create_def events_rest_def model_defs Let_def upto.simps)

lemma events_archive_plan:
  "synthesize archive_cfg ''events'' events_descr events_rows = Inr archive_plan"
  by (simp add: synthesize_def events_loop)
     (simp add: events_acc_def archive_cfg_def example_cfg_def archive_plan_def model_defs Let_def upto.simps)



lemma events_sortkeys:
  "sortkey_of events_descr (events_rows ! 0) = - 2"
  "sortkey_of events_descr (events_rows ! 1) = 1"
  "sortkey_of events_descr (events_rows ! 2) = 0"
  by (simp_all add: sortkey_of_def events_descr_def events_rows_def)



section \<open>Migration Executor\<close>

lemma executed_append: "executed (a @ b) = executed a @ executed b"
  by (induction a rule: executed.induct) auto

lemma sleeps_append: "sleeps (a @ b) = sleeps a @ sleeps b"
  by (induction a rule: sleeps.induct) auto


lemma executed_comment: "executed (comment cfg s) = []"
  by (simp add: comment_def)

lemma rollback_comment: "Rollback \<notin> set (comment cfg s)"
  by (simp add: comment_def)

lemma loop_all_succeed:
  "(\<And>j. j < length commands \<Longrightarrow> \<exists>m. db (prev @ take j commands) (commands ! j) = Status m) \<Longrightarrow>
   fst (run_commands_loop cfg db prev commands) = True \<and>
   executed (snd (run_commands_loop cfg db prev commands)) = commands \<and>
   Rollback \<notin> set (snd (run_commands_loop cfg db prev commands))"
proof (induction commands arbitrary: prev)
  case Nil
  then show ?case by simp
next
  case (Cons c cs)
  from Cons.prems[of 0] obtain m where m: "db prev c = Status m" by auto
  have "\<And>j. j < length cs \<Longrightarrow> \<exists>m. db ((prev @ [c]) @ take j cs) (cs ! j) = Status m"
    using Cons.prems[of "Suc j" for j] by auto
  from Cons.IH[OF this] show ?case using m
    by (simp add: split_beta Let_def executed_append executed_comment rollback_comment)
qed

lemma loop_first_failure:
  "i < length commands \<Longrightarrow>
   (\<And>j. j < i \<Longrightarrow> \<exists>m. db (prev @ take j commands) (commands ! j) = Status m) \<Longrightarrow>
   db (prev @ take i commands) (commands ! i) = Raises e \<Longrightarrow>
   fst (run_commands_loop cfg db prev commands) = False \<and>
   executed (snd (run_commands_loop cfg db prev commands)) = take (Suc i) commands \<and>
   (\<exists>pre. snd (run_commands_loop cfg db prev commands) =
      pre @ [Execute (commands ! i), Rollback, Write (exn_message e)] \<and> Rollback \<notin> set pre)"
proof (induction commands arbitrary: prev i)
  case Nil
  then show ?case by simp
next
  case (Cons c cs)
  show ?case
  proof (cases i)
    case 0
    with Cons.prems(3) have "db prev c = Raises e" by simp
    with 0 show ?thesis
      by (simp add: Let_def executed_append executed_comment rollback_comment)
  next
    case (Suc k)
    from Cons.prems(2)[of 0] Suc obtain m where m: "db prev c = Status m" by auto
    have k: "k < length cs" using Cons.prems(1) Suc by simp
    have ok: "\<And>j. j < k \<Longrightarrow> \<exists>m. db ((prev @ [c]) @ take j cs) (cs ! j) = Status m"
      using Cons.prems(2)[of "Suc j" for j] Suc by auto
    have fl: "db ((prev @ [c]) @ take k cs) (cs ! k) = Raises e"
      using Cons.prems(3) Suc by simp
    from Cons.IH[OF k ok fl] obtain pre where
      f: "fst (run_commands_loop cfg db (prev @ [c]) cs) = False" and
      ex: "executed (snd (run_commands_loop cfg db (prev @ [c]) cs)) = take (Suc k) cs" and
      tr: "snd (run_commands_loop cfg db (prev @ [c]) cs) =
             pre @ [Execute (cs ! k), Rollback, Write (exn_message e)]" and
      nr: "Rollback \<notin> set pre"
      by blast
    show ?thesis using m f ex tr nr Suc
      by (auto simp add: split_beta Let_def executed_append executed_comment rollback_comment)
  qed
qed

text \<open>
  C7. \<^verbatim>\<open>run_commands\<close> executes the statements in order. If the statement at index \<open>i\<close>
  is the first the session refuses, the statements executed are exactly those up to and
  including it (none of the remaining ones), the trace ends with that statement, one
  rollback of the session (the only one) and the written error message, and the function
  returns \<^verbatim>\<open>False\<close>. If the session accepts every statement, all of them are executed,
  nothing is rolled back and the function returns \<^verbatim>\<open>True\<close>.
\<close>

theorem run_commands_stops_at_first_failure:
  "(i < length commands \<and>
    (\<forall>j<i. \<exists>m. db (take j commands) (commands ! j) = Status m) \<and>
    db (take i commands) (commands ! i) = Raises e \<longrightarrow>
      fst (run_commands cfg db commands) = False \<and>
      executed (snd (run_commands cfg db commands)) = take (Suc i) commands \<and>
      (\<exists>pre. snd (run_commands cfg db commands) =
         pre @ [Execute (commands ! i), Rollback, Write (exn_message e)] \<and> Rollback \<notin> set pre)) \<and>
   ((\<forall>j<length commands. \<exists>m. db (take j commands) (commands ! j) = Status m) \<longrightarrow>
      fst (run_commands cfg db commands) = True \<and>
      executed (snd (run_commands cfg db commands)) = commands \<and>
      Rollback \<notin> set (snd (run_commands cfg db commands)))"
proof (intro conjI impI)
  assume a: "i < length commands \<and>
    (\<forall>j<i. \<exists>m. db (take j commands) (commands ! j) = Status m) \<and>
    db (take i commands) (commands ! i) = Raises e"
  then have "fst (run_commands_loop cfg db [] commands) = False \<and>
     executed (snd (run_commands_loop cfg db [] commands)) = take (Suc i) commands \<and>
     (\<exists>pre. snd (run_commands_loop cfg db [] commands) =
        pre @ [Execute (commands ! i), Rollback, Write (exn_message e)] \<and> Rollback \<notin> set pre)"
    by (intro loop_first_failure) auto
  then show "fst (run_commands cfg db commands) = False"
    and "executed (snd (run_commands cfg db commands)) = take (Suc i) commands"
    and "\<exists>pre. snd (run_commands cfg db commands) =
         pre @ [Execute (commands ! i), Rollback, Write (exn_message e)] \<and> Rollback \<notin> set pre"
    by (simp_all add: run_commands_def)
next
  assume "\<forall>j<length commands. \<exists>m. db (take j commands) (commands ! j) = Status m"
  then have "fst (run_commands_loop cfg db [] commands) = True \<and>
     executed (snd (run_commands_loop cfg db [] commands)) = commands \<and>
     Rollback \<notin> set (snd (run_commands_loop cfg db [] commands))"
    by (intro loop_all_succeed) auto
  then show "fst (run_commands cfg db commands) = True"
    and "executed (snd (run_commands cfg db commands)) = commands"
    and "Rollback \<notin> set (snd (run_commands cfg db commands))"
    by (simp_all add: run_commands_def)
qed

theorem run_commands_stops_at_first_failure_witness:
  "fst (run_commands example_cfg failing_session [''s1'', ''s2'', ''s3'']) = False \<and>
   executed (snd (run_commands example_cfg failing_session [''s1'', ''s2'', ''s3''])) = [''s1'', ''s2''] \<and>
   fst (run_commands example_cfg accepting_session [''s1'', ''s2'']) = True \<and>
   executed (snd (run_commands example_cfg accepting_session [''s1'', ''s2''])) = [''s1'', ''s2'']"
proof -
  let ?cs = "[''s1'', ''s2'', ''s3'']"
  have h1: "1 < length ?cs \<and>
      (\<forall>j<1. \<exists>m. failing_session (take j ?cs) (?cs ! j) = Status m) \<and>
      failing_session (take 1 ?cs) (?cs ! 1) = Raises (DbError ''permission denied'')"
    by (simp add: failing_session_def)
  have h2: "\<forall>j<length [''s1'', ''s2'']. \<exists>m. accepting_session (take j [''s1'', ''s2'']) ([''s1'', ''s2''] ! j) = Status m"
    by (simp add: accepting_session_def)
  from run_commands_stops_at_first_failure[of 1 ?cs failing_session "DbError ''permission denied''" example_cfg] h1
  have a: "fst (run_commands example_cfg failing_session ?cs) = False \<and>
      executed (snd (run_commands example_cfg failing_session ?cs)) = take (Suc 1) ?cs"
    by blast
  from run_commands_stops_at_first_failure[of 0 "[''s1'', ''s2'']" accepting_session undefined example_cfg] h2
  have b: "fst (run_commands example_cfg accepting_session [''s1'', ''s2'']) = True \<and>
      executed (snd (run_commands example_cfg accepting_session [''s1'', ''s2''])) = [''s1'', ''s2'']"
    by blast
  from a b show ?thesis by simp
qed

section \<open>Compression Analyzer: the retry loop\<close>

lemma retry_loop_stop:
  "\<not> (attempt_count s < analyze_retry \<and> output_rows s = None) \<Longrightarrow>
   retry_loop db statement k s = s"
  by (subst retry_loop.simps) auto

lemma retry_loop_step:
  "attempt_count s < analyze_retry \<and> output_rows s = None \<Longrightarrow>
   retry_loop db statement k s =
     (case db k of
        Fetched rows \<Rightarrow>
          retry_loop db statement (Suc k)
            (s\<lparr>output_rows := Some rows, trace := trace s @ [Execute statement, CursorClose]\<rparr>)
      | KeyboardInterrupt \<Rightarrow>
          s\<lparr>trace := trace s @ [Execute statement, CursorClose, Cleanup],
            exited := Some TERMINATED_BY_USER\<rparr>
      | Raised e \<Rightarrow>
          retry_loop db statement (Suc k)
            (s\<lparr>attempt_count := attempt_count s + 1, last_exception := Some e,
               trace := trace s @ [Execute statement, Sleep (2 ^ (attempt_count s + 1) * RETRY_TIMEOUT)]\<rparr>))"
  by (subst retry_loop.simps) auto

lemma retry_loop_mono: "attempt_count s \<le> attempt_count (retry_loop db statement k s)"
proof (induction db statement k s rule: retry_loop.induct)
  case (1 db statement k s)
  show ?case
  proof (cases "attempt_count s < analyze_retry \<and> output_rows s = None")
    case False
    then show ?thesis by (simp add: retry_loop_stop)
  next
    case True
    show ?thesis
    proof (cases "db k")
      case (Fetched rows)
      with "1.IH"(1)[OF True Fetched] show ?thesis
        by (simp add: retry_loop_step[OF True])
    next
      case (Raised e)
      with "1.IH"(2)[OF True Raised] show ?thesis
        by (simp add: retry_loop_step[OF True])
    next
      case KeyboardInterrupt
      then show ?thesis by (simp add: retry_loop_step[OF True])
    qed
  qed
qed

lemma retry_loop_sleeps:
  "sleeps (trace (retry_loop db statement k s)) =
     sleeps (trace s) @ replicate (attempt_count (retry_loop db statement k s) - attempt_count s) 0"
proof (induction db statement k s rule: retry_loop.induct)
  case (1 db statement k s)
  show ?case
  proof (cases "attempt_count s < analyze_retry \<and> output_rows s = None")
    case False
    then show ?thesis by (simp add: retry_loop_stop)
  next
    case True
    show ?thesis
    proof (cases "db k")
      case (Fetched rows)
      with "1.IH"(1)[OF True Fetched] show ?thesis
        by (simp add: retry_loop_step[OF True] sleeps_append)
    next
      case (Raised e)
      let ?s' = "s\<lparr>attempt_count := attempt_count s + 1, last_exception := Some e,
                  trace := trace s @ [Execute statement, Sleep (2 ^ (attempt_count s + 1) * RETRY_TIMEOUT)]\<rparr>"
      have m: "attempt_count s + 1 \<le> attempt_count (retry_loop db statement (Suc k) ?s')"
        using retry_loop_mono[of ?s' db statement "Suc k"] by simp
      have r: "retry_loop db statement k s = retry_loop db statement (Suc k) ?s'"
        using Raised by (simp add: retry_loop_step[OF True])
      have "replicate (attempt_count (retry_loop db statement (Suc k) ?s') - attempt_count s) (0::int)
          = 0 # replicate (attempt_count (retry_loop db statement (Suc k) ?s') - (attempt_count s + 1)) 0"
        using m by (metis Suc_diff_le Suc_eq_plus1 Suc_le_eq diff_Suc_Suc less_imp_le replicate_Suc)
      with "1.IH"(2)[OF True Raised] show ?thesis
        unfolding r by (simp add: sleeps_append RETRY_TIMEOUT_def)
    next
      case KeyboardInterrupt
      then show ?thesis by (simp add: retry_loop_step[OF True] sleeps_append)
    qed
  qed
qed

lemma retry_loop_no_rollback:
  "Rollback \<notin> set (trace s) \<Longrightarrow> Rollback \<notin> set (trace (retry_loop db statement k s))"
proof (induction db statement k s rule: retry_loop.induct)
  case (1 db statement k s)
  show ?case
  proof (cases "attempt_count s < analyze_retry \<and> output_rows s = None")
    case False
    then show ?thesis using "1.prems" by (simp add: retry_loop_stop)
  next
    case True
    show ?thesis
    proof (cases "db k")
      case (Fetched rows)
      with "1.IH"(1)[OF True Fetched] "1.prems" show ?thesis
        by (simp add: retry_loop_step[OF True])
    next
      case (Raised e)
      with "1.IH"(2)[OF True Raised] "1.prems" show ?thesis
        by (simp add: retry_loop_step[OF True])
    next
      case KeyboardInterrupt
      with "1.prems" show ?thesis by (simp add: retry_loop_step[OF True])
    qed
  qed
qed

text \<open>
  The loop makes at most ten attempts. When all ten raise, the worker prints that it is
  unable to analyze the table, with the message of the last exception, and returns
  \<^verbatim>\<open>ERROR\<close>, having executed the statement ten times.
\<close>

lemma retry_loop_executes:
  "length (executed (trace (retry_loop db statement k s))) \<le>
     length (executed (trace s)) + (analyze_retry - attempt_count s)"
proof (induction db statement k s rule: retry_loop.induct)
  case (1 db statement k s)
  show ?case
  proof (cases "attempt_count s < analyze_retry \<and> output_rows s = None")
    case False
    then show ?thesis by (simp add: retry_loop_stop)
  next
    case True
    show ?thesis
    proof (cases "db k")
      case (Fetched rows)
      have "length (executed (trace s)) + 1 \<le> length (executed (trace s)) + (analyze_retry - attempt_count s)"
        using True by arith
      then show ?thesis using Fetched
        by (simp add: retry_loop_step[OF True] retry_loop_stop executed_append)
    next
      case (Raised e)
      let ?s' = "s\<lparr>attempt_count := attempt_count s + 1, last_exception := Some e,
                  trace := trace s @ [Execute statement, Sleep (2 ^ (attempt_count s + 1) * RETRY_TIMEOUT)]\<rparr>"
      have r: "retry_loop db statement k s = retry_loop db statement (Suc k) ?s'"
        using Raised by (simp add: retry_loop_step[OF True])
      have "length (executed (trace (retry_loop db statement (Suc k) ?s'))) \<le>
          length (executed (trace ?s')) + (analyze_retry - attempt_count ?s')"
        by (rule "1.IH"(2)[OF True Raised])
      also have "length (executed (trace ?s')) = length (executed (trace s)) + 1"
        by (simp add: executed_append)
      also have "length (executed (trace s)) + 1 + (analyze_retry - attempt_count ?s') =
          length (executed (trace s)) + (analyze_retry - attempt_count s)"
      proof -
        have a: "attempt_count ?s' = attempt_count s + 1" by simp
        show ?thesis unfolding a using True by arith
      qed
      finally show ?thesis unfolding r .
    next
      case KeyboardInterrupt
      have "length (executed (trace s)) + 1 \<le> length (executed (trace s)) + (analyze_retry - attempt_count s)"
        using True by arith
      then show ?thesis using KeyboardInterrupt
        by (simp add: retry_loop_step[OF True] executed_append)
    qed
  qed
qed

lemma retry_attempts_at_most_ten:
  "length (executed (trace (retry_loop db statement 0 retry_init))) \<le> 10"
  using retry_loop_executes[of db statement 0 retry_init]
  by (simp add: retry_init_def analyze_retry_def)

lemma retry_loop_all_raise:
  "output_rows s = None \<Longrightarrow> attempt_count s \<le> analyze_retry \<Longrightarrow>
   (\<forall>j<analyze_retry - attempt_count s. \<exists>x. db (k + j) = Raised x) \<Longrightarrow>
   output_rows (retry_loop db statement k s) = None \<and>
   exited (retry_loop db statement k s) = exited s \<and>
   attempt_count (retry_loop db statement k s) = analyze_retry \<and>
   executed (trace (retry_loop db statement k s)) =
     executed (trace s) @ replicate (analyze_retry - attempt_count s) statement \<and>
   (attempt_count s < analyze_retry \<longrightarrow>
      last_exception (retry_loop db statement k s) =
        (case db (k + (analyze_retry - attempt_count s) - 1) of Raised x \<Rightarrow> Some x | _ \<Rightarrow> None))"
proof (induction db statement k s rule: retry_loop.induct)
  case (1 db statement k s)
  show ?case
  proof (cases "attempt_count s < analyze_retry")
    case False
    then have "\<not> (attempt_count s < analyze_retry \<and> output_rows s = None)" by simp
    then show ?thesis using False "1.prems"(1,2) by (simp add: retry_loop_stop)
  next
    case lt: True
    then have True: "attempt_count s < analyze_retry \<and> output_rows s = None"
      using "1.prems"(1) by simp
    from "1.prems"(3) lt obtain x where x: "db k = Raised x"
      by (metis add.right_neutral zero_less_diff)
    let ?s' = "s\<lparr>attempt_count := attempt_count s + 1, last_exception := Some x,
                  trace := trace s @ [Execute statement, Sleep (2 ^ (attempt_count s + 1) * RETRY_TIMEOUT)]\<rparr>"
    have r: "retry_loop db statement k s = retry_loop db statement (Suc k) ?s'"
      using x by (simp add: retry_loop_step[OF True])
    have p1: "output_rows ?s' = None" using "1.prems"(1) by simp
    have p2: "attempt_count ?s' \<le> analyze_retry" using lt by simp
    have p3: "\<forall>j<analyze_retry - attempt_count ?s'. \<exists>x. db (Suc k + j) = Raised x"
    proof (intro allI impI)
      fix j assume "j < analyze_retry - attempt_count ?s'"
      then have "Suc j < analyze_retry - attempt_count s" by simp
      with "1.prems"(3) show "\<exists>x. db (Suc k + j) = Raised x" by (metis add_Suc_shift)
    qed
    note ih = "1.IH"(2)[OF True x p1 p2 p3]
    have rep: "replicate (analyze_retry - attempt_count s) statement =
        statement # replicate (analyze_retry - (attempt_count s + 1)) statement"
      using lt by (metis Suc_diff_Suc Suc_eq_plus1 replicate_Suc)
    have le: "last_exception (retry_loop db statement k s) =
        (case db (k + (analyze_retry - attempt_count s) - 1) of Raised x \<Rightarrow> Some x | _ \<Rightarrow> None)"
    proof (cases "attempt_count s + 1 < analyze_retry")
      case True
      then have "Suc k + (analyze_retry - (attempt_count s + 1)) - 1 = k + (analyze_retry - attempt_count s) - 1"
        by simp
      with ih True show ?thesis unfolding r by simp
    next
      case False
      with lt have e: "attempt_count s + 1 = analyze_retry" by simp
      then have "\<not> (attempt_count ?s' < analyze_retry \<and> output_rows ?s' = None)" by simp
      then have "retry_loop db statement (Suc k) ?s' = ?s'" by (rule retry_loop_stop)
      moreover have "k + (analyze_retry - attempt_count s) - 1 = k" using e by simp
      ultimately show ?thesis unfolding r using x by simp
    qed
    from ih le show ?thesis unfolding r by (simp add: executed_append rep)
  qed
qed

lemma analyze_reports_exhaustion:
  assumes "\<forall>j<10. \<exists>x. attempts e j = Raised x"
  shows "\<exists>x. attempts e 9 = Raised x \<and>
           fst (analyze cfg e tables) = Returned ERROR \<and>
           executed (snd (analyze cfg e tables)) = replicate 10 (analyze_statement cfg (fst tables)) \<and>
           last (snd (analyze cfg e tables)) =
             Print (''Unable to Analyze '' @ fst tables @ '' due to Exception '' @ exn_message x)"
proof -
  from assms[rule_format, of 9] obtain x where x: "attempts e 9 = Raised x" by auto
  let ?s = "retry_loop (attempts e) (analyze_statement cfg (fst tables)) 0 retry_init"
  have "output_rows ?s = None \<and> exited ?s = exited retry_init \<and> attempt_count ?s = analyze_retry \<and>
     executed (trace ?s) = executed (trace retry_init) @
        replicate (analyze_retry - attempt_count retry_init) (analyze_statement cfg (fst tables)) \<and>
     (attempt_count retry_init < analyze_retry \<longrightarrow>
      last_exception ?s =
        (case attempts e (0 + (analyze_retry - attempt_count retry_init) - 1) of Raised x \<Rightarrow> Some x | _ \<Rightarrow> None))"
    by (rule retry_loop_all_raise) (use assms in \<open>simp_all add: retry_init_def analyze_retry_def\<close>)
  then have s: "output_rows ?s = None" "exited ?s = None" "last_exception ?s = Some x"
    "executed (trace ?s) = replicate 10 (analyze_statement cfg (fst tables))"
    using x by (simp_all add: retry_init_def analyze_retry_def)
  have "fst (analyze cfg e tables) = Returned ERROR \<and>
           executed (snd (analyze cfg e tables)) = replicate 10 (analyze_statement cfg (fst tables)) \<and>
           last (snd (analyze cfg e tables)) =
             Print (''Unable to Analyze '' @ fst tables @ '' due to Exception '' @ exn_message x)"
    by (simp add: analyze_def Let_def s executed_append executed_comment)
  with x show ?thesis by blast
qed

text \<open>
  C5. The loop sleeps once after each failed attempt, and every one of these sleeps lasts
  0 seconds: \<^verbatim>\<open>RETRY_TIMEOUT\<close> is \<^verbatim>\<open>100/1000\<close> in integer arithmetic, which is 0, so
  \<^verbatim>\<open>2**attempt_count * RETRY_TIMEOUT\<close> is 0 and not \<open>2^n * 0.1\<close>. (The comment on line 56
  announces 100 ms.)
\<close>

theorem backoff_sleeps_zero_seconds:
  "sleeps (trace (retry_loop db statement 0 retry_init)) =
     replicate (attempt_count (retry_loop db statement 0 retry_init)) 0"
  using retry_loop_sleeps[of db statement 0 retry_init] by (simp add: retry_init_def)

text \<open>
  C6. Whatever the attempts do, the retry loop never rolls the session back: line 255
  names \<^verbatim>\<open>local_conn.rollback\<close> without calling it.
\<close>

theorem retry_without_rollback:
  "Rollback \<notin> set (trace (retry_loop db statement 0 retry_init))"
  by (rule retry_loop_no_rollback) (simp add: retry_init_def)

section \<open>The exit status of main\<close>

text \<open>
  C9. When the pool's map returns and every worker returned \<^verbatim>\<open>OK\<close>, the process exits
  with status 1 (\<^verbatim>\<open>ERROR\<close>), not 0: \<^verbatim>\<open>worker_output\<close> holds one element, a list, which
  differs from \<^verbatim>\<open>OK\<close>, and \<^verbatim>\<open>sys.exit\<close> of a list exits with status 1.
\<close>

theorem exit_status_when_all_workers_ok:
  "fst (main_finish cfg (MapResult (replicate n OK))) = ERROR"
  by (simp add: main_finish_def ERROR_def OK_def)

section \<open>Script Synthesizer\<close>

lemma gta_row:
  "get_table_attribute descr c index = map_option index (get_table_attribute descr c (\<lambda>item. item))"
  by (induction descr) auto

lemma gta_distinct:
  "distinct (map d_column descr) \<Longrightarrow> d \<in> set descr \<Longrightarrow>
   get_table_attribute descr (d_column d) (\<lambda>item. item) = Some d"
  by (induction descr) (auto simp: rev_image_eqI)

lemma process_row_Inr:
  assumes "process_row descr a row = Inr a'"
  shows "\<exists>d. get_table_attribute descr (r_column row) (\<lambda>item. item) = Some d \<and>
     found_non_raw a' = (r_encoding row \<noteq> ''raw'' \<or> found_non_raw a) \<and>
     encode_columns a' = encode_columns a @
       [column_definition (r_column row) (fix_datatype (d_type d)) (null_clause (d_notnull d))
          (compression_of (d_sortkey d) (r_encoding row)) (distkey_clause (d_distkey d))] \<and>
     sortkeys a' = (if d_sortkey d \<noteq> 0 then AList.update \<bar>d_sortkey d\<bar> (r_column row) (sortkeys a)
                    else sortkeys a) \<and>
     has_zindex_sortkeys a' = (d_sortkey d < 0 \<or> has_zindex_sortkeys a)"
proof (cases "get_table_attribute descr (r_column row) (\<lambda>item. item)")
  case None
  then have "get_table_attribute descr (r_column row) d_type = None"
    by (subst gta_row) simp
  with assms show ?thesis by (simp add: process_row_def Let_def)
next
  case (Some d)
  then have *: "\<And>index. get_table_attribute descr (r_column row) index = Some (index d)"
    by (subst gta_row) simp
  from assms show ?thesis
    unfolding process_row_def Let_def * Some
    by (auto simp: opt_pyval_def split: if_splits)
qed

lemma column_loop_columns:
  "column_loop descr rows a0 = Inr a \<Longrightarrow>
   length (encode_columns a) = length (encode_columns a0) + length rows \<and>
   (\<forall>i<length rows. \<exists>d. get_table_attribute descr (r_column (rows ! i)) (\<lambda>item. item) = Some d \<and>
      encode_columns a ! (length (encode_columns a0) + i) =
        column_definition (r_column (rows ! i)) (fix_datatype (d_type d)) (null_clause (d_notnull d))
          (compression_of (d_sortkey d) (r_encoding (rows ! i))) (distkey_clause (d_distkey d))) \<and>
   take (length (encode_columns a0)) (encode_columns a) = encode_columns a0"
proof (induction rows arbitrary: a0)
  case Nil
  then show ?case by simp
next
  case (Cons row rows)
  from Cons.prems obtain a1 where p: "process_row descr a0 row = Inr a1"
    and l: "column_loop descr rows a1 = Inr a"
    by (auto split: sum.splits)
  from process_row_Inr[OF p] obtain d where
    d: "get_table_attribute descr (r_column row) (\<lambda>item. item) = Some d" and
    e: "encode_columns a1 = encode_columns a0 @
       [column_definition (r_column row) (fix_datatype (d_type d)) (null_clause (d_notnull d))
          (compression_of (d_sortkey d) (r_encoding row)) (distkey_clause (d_distkey d))]"
    by blast
  from Cons.IH[OF l] have
    len: "length (encode_columns a) = length (encode_columns a1) + length rows" and
    nth: "\<And>i. i < length rows \<Longrightarrow> \<exists>d. get_table_attribute descr (r_column (rows ! i)) (\<lambda>item. item) = Some d \<and>
      encode_columns a ! (length (encode_columns a1) + i) =
        column_definition (r_column (rows ! i)) (fix_datatype (d_type d)) (null_clause (d_notnull d))
          (compression_of (d_sortkey d) (r_encoding (rows ! i))) (distkey_clause (d_distkey d))" and
    tk: "take (length (encode_columns a1)) (encode_columns a) = encode_columns a1"
    by blast+
  have tk0: "take (length (encode_columns a0)) (encode_columns a) = encode_columns a0"
  proof -
    have "take (length (encode_columns a0)) (take (length (encode_columns a1)) (encode_columns a))
         = encode_columns a0" unfolding tk by (simp add: e)
    then show ?thesis by (simp add: e min_def)
  qed
  have first: "encode_columns a ! length (encode_columns a0) =
      column_definition (r_column row) (fix_datatype (d_type d)) (null_clause (d_notnull d))
          (compression_of (d_sortkey d) (r_encoding row)) (distkey_clause (d_distkey d))"
  proof -
    have "encode_columns a ! length (encode_columns a0)
        = take (length (encode_columns a1)) (encode_columns a) ! length (encode_columns a0)"
      by (simp add: e)
    also have "\<dots> = encode_columns a1 ! length (encode_columns a0)" by (simp only: tk)
    finally show ?thesis by (simp add: e)
  qed
  show ?case
  proof (intro conjI allI impI)
    show "length (encode_columns a) = length (encode_columns a0) + length (row # rows)"
      using len e by simp
    show "take (length (encode_columns a0)) (encode_columns a) = encode_columns a0" by (rule tk0)
    fix i assume i: "i < length (row # rows)"
    show "\<exists>d. get_table_attribute descr (r_column ((row # rows) ! i)) (\<lambda>item. item) = Some d \<and>
      encode_columns a ! (length (encode_columns a0) + i) =
        column_definition (r_column ((row # rows) ! i)) (fix_datatype (d_type d)) (null_clause (d_notnull d))
          (compression_of (d_sortkey d) (r_encoding ((row # rows) ! i))) (distkey_clause (d_distkey d))"
    proof (cases i)
      case 0
      then show ?thesis using d first by simp
    next
      case (Suc j)
      with i have "j < length rows" by simp
      from nth[OF this] show ?thesis using Suc e by simp
    qed
  qed
qed


lemma process_row_sortkey_of:
  assumes "process_row descr a row = Inr a'"
  shows "found_non_raw a' = (r_encoding row \<noteq> ''raw'' \<or> found_non_raw a) \<and>
     sortkeys a' = (if sortkey_of descr row \<noteq> 0
                    then AList.update \<bar>sortkey_of descr row\<bar> (r_column row) (sortkeys a)
                    else sortkeys a) \<and>
     has_zindex_sortkeys a' = (sortkey_of descr row < 0 \<or> has_zindex_sortkeys a)"
proof -
  from process_row_Inr[OF assms] obtain d where
    d: "get_table_attribute descr (r_column row) (\<lambda>item. item) = Some d" and
    r: "found_non_raw a' = (r_encoding row \<noteq> ''raw'' \<or> found_non_raw a)"
       "sortkeys a' = (if d_sortkey d \<noteq> 0 then AList.update \<bar>d_sortkey d\<bar> (r_column row) (sortkeys a)
                    else sortkeys a)"
       "has_zindex_sortkeys a' = (d_sortkey d < 0 \<or> has_zindex_sortkeys a)"
    by blast
  have "sortkey_of descr row = d_sortkey d"
    unfolding sortkey_of_def by (subst gta_row) (simp add: d)
  with r show ?thesis by simp
qed

lemma column_loop_flags:
  "column_loop descr rows a0 = Inr a \<Longrightarrow>
   found_non_raw a = (found_non_raw a0 \<or> (\<exists>row\<in>set rows. r_encoding row \<noteq> ''raw'')) \<and>
   has_zindex_sortkeys a = (has_zindex_sortkeys a0 \<or> (\<exists>row\<in>set rows. sortkey_of descr row < 0))"
proof (induction rows arbitrary: a0)
  case Nil
  then show ?case by simp
next
  case (Cons row rows)
  from Cons.prems obtain a1 where p: "process_row descr a0 row = Inr a1"
    and l: "column_loop descr rows a1 = Inr a"
    by (auto split: sum.splits)
  from Cons.IH[OF l] process_row_sortkey_of[OF p] show ?case by auto
qed


lemma column_loop_dom:
  "column_loop descr rows a0 = Inr a \<Longrightarrow>
   dom (map_of (sortkeys a)) = dom (map_of (sortkeys a0)) \<union>
     (\<lambda>row. \<bar>sortkey_of descr row\<bar>) ` {row \<in> set rows. sortkey_of descr row \<noteq> 0}"
proof (induction rows arbitrary: a0)
  case Nil
  then show ?case by simp
next
  case (Cons row rows)
  from Cons.prems obtain a1 where p: "process_row descr a0 row = Inr a1"
    and l: "column_loop descr rows a1 = Inr a"
    by (auto split: sum.splits)
  have "dom (map_of (sortkeys a1)) = dom (map_of (sortkeys a0)) \<union>
     (if sortkey_of descr row \<noteq> 0 then {\<bar>sortkey_of descr row\<bar>} else {})"
    using process_row_sortkey_of[OF p] by (simp add: update_conv')
  with Cons.IH[OF l] show ?case by auto
qed












lemma sortkey_loop_prefix:
  "sortkey_loop keys is acc = Inr r \<Longrightarrow> \<exists>body. r = acc @ body"
proof (induction "is" arbitrary: acc)
  case Nil
  then show ?case by simp
next
  case (Cons i "is")
  then show ?case by (fastforce split: option.splits)
qed

lemma column_loop_has_keys:
  assumes "column_loop descr rows column_acc_init = Inr a"
  shows "(0 < length (sortkeys a)) = (\<exists>row\<in>set rows. sortkey_of descr row \<noteq> 0)"
proof -
  have "dom (map_of (sortkeys a)) =
      (\<lambda>row. \<bar>sortkey_of descr row\<bar>) ` {row \<in> set rows. sortkey_of descr row \<noteq> 0}"
    using column_loop_dom[OF assms] by (simp add: column_acc_init_def)
  moreover have "(sortkeys a = []) = (dom (map_of (sortkeys a)) = {})"
    by (cases "sortkeys a") auto
  ultimately show ?thesis by auto
qed

lemma synthesize_plan:
  assumes "synthesize cfg table_name descr rows = Inr (create_table # rest)"
  shows "\<exists>a. column_loop descr rows column_acc_init = Inr a \<and>
           (found_non_raw a \<or> force cfg) \<and>
           create_table_stmt cfg table_name a = Inr create_table \<and>
           rest = [insert_stmt cfg table_name, analyze_stmt cfg table_name] @
                  (if target_schema cfg = analyze_schema cfg
                   then [drop_stmt cfg table_name, rename_stmt cfg table_name] else []) @
                  [commit_stmt]"
  using assms
  by (auto simp: synthesize_def build_statements_def split: sum.splits if_splits)

lemma create_table_stmt_shape:
  assumes "create_table_stmt cfg table_name a = Inr create_table"
  shows "\<exists>tail. create_table =
     create_table_head cfg table_name @ columns_text 0 (encode_columns a) @ nl @ '')'' @ tail"
  using assms
  by (auto simp: create_table_stmt_def Let_def split: sum.splits if_splits)

text \<open>
  C1. In a generated plan, the create-table statement is the head, the column definitions
  (one per analyzer row, in order) and the rest. If the catalog describes a column with
  \<open>\<bar>sortkey\<bar> = 1\<close> (column names being unique in a table's description), the definition
  emitted for that column carries the encoding \<^verbatim>\<open>RAW\<close>, whatever encoding the analyzer's
  row recommends.
\<close>

theorem first_sort_key_column_is_raw:
  assumes plan: "synthesize cfg table_name descr rows = Inr (create_table # rest)"
      and names: "distinct (map d_column descr)"
      and d: "d \<in> set descr" "\<bar>d_sortkey d\<bar> = 1"
      and i: "i < length rows" "r_column (rows ! i) = d_column d"
  shows "\<exists>cols tail.
           create_table = create_table_head cfg table_name @ columns_text 0 cols @ nl @ '')'' @ tail \<and>
           length cols = length rows \<and>
           cols ! i = column_definition (d_column d) (fix_datatype (d_type d))
                        (null_clause (d_notnull d)) ''RAW'' (distkey_clause (d_distkey d))"
proof -
  from synthesize_plan[OF plan] obtain a where
    loop: "column_loop descr rows column_acc_init = Inr a" and
    stmt: "create_table_stmt cfg table_name a = Inr create_table"
    by blast
  from create_table_stmt_shape[OF stmt] obtain tail where
    t: "create_table = create_table_head cfg table_name @ columns_text 0 (encode_columns a) @ nl @ '')'' @ tail"
    by blast
  from column_loop_columns[OF loop] have
    len: "length (encode_columns a) = length rows" and
    nth: "\<exists>d'. get_table_attribute descr (r_column (rows ! i)) (\<lambda>item. item) = Some d' \<and>
      encode_columns a ! i =
        column_definition (r_column (rows ! i)) (fix_datatype (d_type d')) (null_clause (d_notnull d'))
          (compression_of (d_sortkey d') (r_encoding (rows ! i))) (distkey_clause (d_distkey d'))"
    using i(1) by (auto simp: column_acc_init_def)
  from nth gta_distinct[OF names d(1)] i(2) d(2) have
    "encode_columns a ! i = column_definition (d_column d) (fix_datatype (d_type d))
                        (null_clause (d_notnull d)) ''RAW'' (distkey_clause (d_distkey d))"
    by (auto simp: compression_of_def)
  with t len show ?thesis by blast
qed

theorem first_sort_key_column_is_raw_witness:
  "\<exists>cols tail.
     events_create = create_table_head example_cfg ''events'' @ columns_text 0 cols @ nl @ '')'' @ tail \<and>
     length cols = 3 \<and> r_encoding (events_rows ! 1) = ''delta'' \<and>
     cols ! 1 = ''ts timestamp   encode RAW ''"
proof -
  have names: "distinct (map d_column events_descr)" by (simp add: events_descr_def)
  have d: "events_descr ! 1 \<in> set events_descr" "\<bar>d_sortkey (events_descr ! 1)\<bar> = 1"
    by (simp_all add: events_descr_def)
  have i: "1 < length events_rows" "r_column (events_rows ! 1) = d_column (events_descr ! 1)"
    by (simp_all add: events_descr_def events_rows_def)
  from first_sort_key_column_is_raw[OF events_plan names d i]
  show ?thesis
    by (simp add: events_descr_def events_rows_def column_definition_def fix_datatype_def
        null_clause_def distkey_clause_def upper_def upper_char_def numeral_3_eq_3)
qed

text \<open>
  C10. In a generated plan, the null clause of the definition emitted for a column is
  \<^verbatim>\<open>NOT NULL\<close> exactly when the catalog's \<^verbatim>\<open>notnull\<close> attribute of that column is the
  string \<^verbatim>\<open>'true'\<close>, and empty otherwise; in particular it is empty for the boolean
  \<^verbatim>\<open>True\<close>.
\<close>

theorem not_null_only_for_string_true:
  assumes plan: "synthesize cfg table_name descr rows = Inr (create_table # rest)"
      and i: "i < length rows"
  shows "\<exists>cols tail d.
           create_table = create_table_head cfg table_name @ columns_text 0 cols @ nl @ '')'' @ tail \<and>
           length cols = length rows \<and>
           get_table_attribute descr (r_column (rows ! i)) (\<lambda>item. item) = Some d \<and>
           cols ! i = column_definition (r_column (rows ! i)) (fix_datatype (d_type d))
                        (if d_notnull d = PyStr ''true'' then ''NOT NULL'' else [])
                        (compression_of (d_sortkey d) (r_encoding (rows ! i)))
                        (distkey_clause (d_distkey d)) \<and>
           null_clause (PyBool True) = []"
proof -
  from synthesize_plan[OF plan] obtain a where
    loop: "column_loop descr rows column_acc_init = Inr a" and
    stmt: "create_table_stmt cfg table_name a = Inr create_table"
    by blast
  from create_table_stmt_shape[OF stmt] obtain tail where
    t: "create_table = create_table_head cfg table_name @ columns_text 0 (encode_columns a) @ nl @ '')'' @ tail"
    by blast
  have nc: "\<And>v. null_clause v = (if v = PyStr ''true'' then ''NOT NULL'' else [])"
  proof -
    fix v show "null_clause v = (if v = PyStr ''true'' then ''NOT NULL'' else [])"
      by (cases v) (auto simp: null_clause_def)
  qed
  from column_loop_columns[OF loop] i obtain d where
    len: "length (encode_columns a) = length rows" and
    g: "get_table_attribute descr (r_column (rows ! i)) (\<lambda>item. item) = Some d" and
    nth: "encode_columns a ! i =
        column_definition (r_column (rows ! i)) (fix_datatype (d_type d)) (null_clause (d_notnull d))
          (compression_of (d_sortkey d) (r_encoding (rows ! i))) (distkey_clause (d_distkey d))"
    by (auto simp: column_acc_init_def)
  have "null_clause (PyBool True) = []" by (simp add: null_clause_def)
  with t len g nth[unfolded nc] show ?thesis by blast
qed

theorem not_null_only_for_string_true_witness:
  "\<exists>cols tail.
     events_create = create_table_head example_cfg ''events'' @ columns_text 0 cols @ nl @ '')'' @ tail \<and>
     length cols = 3 \<and> cols ! 2 = ''payload varchar(256) NOT NULL encode lzo ''"
proof -
  have i: "2 < length events_rows" by (simp add: events_rows_def)
  have g: "get_table_attribute events_descr (r_column (events_rows ! 2)) (\<lambda>item. item) =
             Some (events_descr ! 2)"
    by (simp add: events_descr_def events_rows_def)
  from not_null_only_for_string_true[OF events_plan i] g
  show ?thesis
    by (auto simp add: events_descr_def events_rows_def column_definition_def fix_datatype_def
        compression_of_def distkey_clause_def upper_def upper_char_def numeral_3_eq_3)
qed

text \<open>
  C8. In a generated plan for a table with at least one sort-key column, the clause after
  the column definitions begins with \<^verbatim>\<open>INTERLEAVED SORTKEY(\<close> if some analysed column has a
  negative sort-key position, and with \<^verbatim>\<open>SORTKEY(\<close> if none has.
\<close>

theorem interleaved_iff_negative_position:
  assumes loop: "column_loop descr rows column_acc_init = Inr a"
      and plan: "synthesize cfg table_name descr rows = Inr (create_table # rest)"
      and keys: "\<exists>row\<in>set rows. sortkey_of descr row \<noteq> 0"
  shows "\<exists>body. create_table =
           create_table_head cfg table_name @ columns_text 0 (encode_columns a) @ nl @ '')'' @ '' '' @
           nl @ (if (\<exists>row\<in>set rows. sortkey_of descr row < 0) then ''INTERLEAVED '' else []) @
           ''SORTKEY('' @ body"
proof -
  from synthesize_plan[OF plan] loop have
    stmt: "create_table_stmt cfg table_name a = Inr create_table"
    by auto
  have k: "0 < length (sortkeys a)" using column_loop_has_keys[OF loop] keys by simp
  have z: "has_zindex_sortkeys a = (\<exists>row\<in>set rows. sortkey_of descr row < 0)"
    using column_loop_flags[OF loop] by (simp add: column_acc_init_def)
  from stmt k obtain clause where
    c: "sortkey_clause (sortkeys a) (has_zindex_sortkeys a) = Inr clause" and
    e: "create_table = create_table_head cfg table_name @ columns_text 0 (encode_columns a) @ nl @ '')'' @
          '' '' @ clause @ '' '' @ '';'' @ nl"
    by (auto simp: create_table_stmt_def Let_def split: sum.splits)
  from sortkey_loop_prefix[OF c[unfolded sortkey_clause_def]] obtain body where
    "clause = sortkey_header (has_zindex_sortkeys a) @ body" by blast
  with e z show ?thesis by (auto simp: sortkey_header_def)
qed


theorem interleaved_iff_negative_position_witness:
  "\<exists>body. events_create =
     create_table_head example_cfg ''events'' @ columns_text 0 (encode_columns events_acc) @ nl @ '')'' @
     '' '' @ nl @ ''INTERLEAVED SORTKEY('' @ body"
proof -
  have k: "\<exists>row\<in>set events_rows. sortkey_of events_descr row \<noteq> 0"
    using events_sortkeys(1) by (intro bexI[of _ "events_rows ! 0"]) (simp_all add: events_rows_def)
  have z: "\<exists>row\<in>set events_rows. sortkey_of events_descr row < 0"
    using events_sortkeys(1) by (intro bexI[of _ "events_rows ! 0"]) (simp_all add: events_rows_def)
  from interleaved_iff_negative_position[OF events_loop events_plan k] z
  show ?thesis by simp
qed



text \<open>
  With a gap the loop of lines 334-340 fails: with the ordinals 1 and 3 it looks up the
  ordinal 2 and raises \<^verbatim>\<open>KeyError\<close>, so no statement is generated.
\<close>

lemma gap_raises_key_error:
  "create_table_stmt example_cfg ''t''
     \<lparr>found_non_raw = True, encode_columns = [''a int  encode RAW '', ''c int  encode lzo ''],
      sortkeys = [(1, ''a''), (3, ''c'')], has_zindex_sortkeys = False\<rparr> = Inl (KeyError 2)"
  by (simp add: create_table_stmt_def sortkey_clause_def Let_def upto.simps)







subsection \<open>The trigger rule\<close>







subsection \<open>The shape of a plan\<close>

lemma create_table_stmt_head:
  assumes "create_table_stmt cfg table_name a = Inr create_table"
  shows "\<exists>r. create_table = ''-- c'' @ r"
  using assms
  by (auto simp: create_table_stmt_def create_table_head_def Let_def split: sum.splits if_splits)

text \<open>
  C4, as the code has it. Every plan the synthesizer builds ends with the commit statement.
  When the target schema is the source schema, the plan is: create, insert, analyze, the
  rename-or-drop of the original table, the rename of the staging table, commit; the
  rename-or-drop and the rename each occur exactly once. When the target schema differs, the
  plan is: create, insert, analyze, commit; it holds a create-table statement and neither a
  rename-or-drop nor a rename.
\<close>

theorem plan_ends_with_commit:
  assumes plan: "synthesize cfg table_name descr rows = Inr statements"
      and built: "statements \<noteq> []"
  shows "last statements = commit_stmt \<and>
         (target_schema cfg = analyze_schema cfg \<longrightarrow>
            (\<exists>create_table. statements =
               [create_table, insert_stmt cfg table_name, analyze_stmt cfg table_name,
                drop_stmt cfg table_name, rename_stmt cfg table_name, commit_stmt]) \<and>
            count_list statements (drop_stmt cfg table_name) = 1 \<and>
            count_list statements (rename_stmt cfg table_name) = 1) \<and>
         (target_schema cfg \<noteq> analyze_schema cfg \<longrightarrow>
            (\<exists>create_table. statements =
               [create_table, insert_stmt cfg table_name, analyze_stmt cfg table_name, commit_stmt]) \<and>
            drop_stmt cfg table_name \<notin> set statements \<and>
            rename_stmt cfg table_name \<notin> set statements)"
proof -
  from plan built obtain create_table rest where s: "statements = create_table # rest"
    by (cases statements) auto
  from synthesize_plan[OF plan[unfolded s]] obtain a where
    c: "create_table_stmt cfg table_name a = Inr create_table" and
    r: "rest = [insert_stmt cfg table_name, analyze_stmt cfg table_name] @
                  (if target_schema cfg = analyze_schema cfg
                   then [drop_stmt cfg table_name, rename_stmt cfg table_name] else []) @
                  [commit_stmt]"
    by blast
  from create_table_stmt_head[OF c] obtain h where h: "create_table = ''-- c'' @ h" by blast
  have ne: "drop_stmt cfg table_name \<noteq> create_table" "rename_stmt cfg table_name \<noteq> create_table"
    "drop_stmt cfg table_name \<noteq> insert_stmt cfg table_name"
    "rename_stmt cfg table_name \<noteq> insert_stmt cfg table_name"
    "drop_stmt cfg table_name \<noteq> analyze_stmt cfg table_name"
    "rename_stmt cfg table_name \<noteq> analyze_stmt cfg table_name"
    "drop_stmt cfg table_name \<noteq> commit_stmt"
    "rename_stmt cfg table_name \<noteq> commit_stmt"
    by (simp_all add: h drop_stmt_def rename_stmt_def insert_stmt_def analyze_stmt_def commit_stmt_def)
  have dr: "target_schema cfg = analyze_schema cfg \<Longrightarrow> drop_stmt cfg table_name \<noteq> rename_stmt cfg table_name"
    by (simp add: drop_stmt_def rename_stmt_def target_table_of_def)
  show ?thesis
    using ne dr by (auto simp: s r)
qed

text \<open>
  A create-table statement is not always followed by a swap or drop: with a target schema
  other than the source schema the finished plan holds a create-table statement and
  neither.
\<close>

theorem plan_without_swap_counterexample:
  "target_schema archive_cfg \<noteq> analyze_schema archive_cfg \<and>
   synthesize archive_cfg ''events'' events_descr events_rows =
     Inr [''-- creating migration table for events\<newline>begin;\<newline>\<newline>create table archive.events(\<newline>id integer  encode lzo DISTKEY\<newline>,ts timestamp   encode RAW \<newline>,payload varchar(256) NOT NULL encode lzo \<newline>) \<newline>INTERLEAVED SORTKEY(ts,id)\<newline> ;\<newline>'',
          ''-- migrating data to new structure\<newline>insert into archive.events select * from public.events;\<newline>'',
          ''analyze archive.events;\<newline>'',
          ''commit;\<newline>'']"
  by (simp add: events_archive_plan)
     (simp add: archive_plan_def archive_cfg_def example_cfg_def)

theorem plan_ends_with_commit_witness:
  "last (events_create # events_rest) = commit_stmt \<and>
   count_list (events_create # events_rest) (drop_stmt example_cfg ''events'') = 1 \<and>
   count_list (events_create # events_rest) (rename_stmt example_cfg ''events'') = 1 \<and>
   drop_stmt example_cfg ''events'' = ''alter table public.events rename to events_$old;\<newline>'' \<and>
   rename_stmt example_cfg ''events'' = ''alter table public.events_$mig rename to events;\<newline>'' \<and>
   last archive_plan = commit_stmt \<and> length archive_plan = 4 \<and>
   drop_stmt archive_cfg ''events'' \<notin> set archive_plan \<and>
   rename_stmt archive_cfg ''events'' \<notin> set archive_plan"
proof -
  have same: "target_schema example_cfg = analyze_schema example_cfg"
    by (simp add: example_cfg_def)
  have other: "target_schema archive_cfg \<noteq> analyze_schema archive_cfg"
    by (simp add: archive_cfg_def example_cfg_def)
  have ne: "archive_plan \<noteq> []" by (simp add: archive_plan_def)
  from plan_ends_with_commit[OF events_plan] same
  have a: "last (events_create # events_rest) = commit_stmt \<and>
   count_list (events_create # events_rest) (drop_stmt example_cfg ''events'') = 1 \<and>
   count_list (events_create # events_rest) (rename_stmt example_cfg ''events'') = 1"
    by blast
  from plan_ends_with_commit[OF events_archive_plan ne] other
  have b: "last archive_plan = commit_stmt \<and>
   drop_stmt archive_cfg ''events'' \<notin> set archive_plan \<and>
   rename_stmt archive_cfg ''events'' \<notin> set archive_plan"
    by blast
  have "length archive_plan = 4" by (simp add: archive_plan_def)
  with a b show ?thesis
    by (simp add: drop_stmt_def rename_stmt_def target_table_of_def example_cfg_def nl_def)
qed

end
